theory Spec2Isabelle
  imports Complex_Main "HOL-Library.Char_ord" "HOL-Library.List_Lexorder" "HOL-Library.Multiset"
    "HOL-Library.AList"
begin

section \<open>JavaScript values\<close>

text \<open>
  Query parameters are a \<^verbatim>\<open>Record<string, unknown>\<close> and raw failures are \<^verbatim>\<open>unknown\<close>:
  the values below are the data values such a slot can hold (undefined, null, booleans,
  numbers, strings and plain objects). Numbers are the integers the callers pass (page
  sizes, status codes). A string is the list of its bytes; an object is the list of its own
  enumerable properties in the order \<^verbatim>\<open>Object.keys\<close> and \<^verbatim>\<open>Object.entries\<close> enumerate
  them, so its names are distinct.
\<close>

datatype jsval =
    JUndefined
  | JNull
  | JBool bool
  | JNum int
  | JStr string
  | JObj "(string \<times> jsval) list"

text \<open>Property read \<^verbatim>\<open>o[key]\<close> on the property list of an object: a missing name reads undefined.\<close>

definition getprop :: "(string \<times> jsval) list \<Rightarrow> string \<Rightarrow> jsval" where
  "getprop ps key = (case map_of ps key of None \<Rightarrow> JUndefined | Some v \<Rightarrow> v)"

text \<open>Truthiness, as \<^verbatim>\<open>if (v)\<close>, \<^verbatim>\<open>!v\<close> and \<^verbatim>\<open>a && b\<close> test it.\<close>

fun truthy :: "jsval \<Rightarrow> bool" where
  "truthy JUndefined = False"
| "truthy JNull = False"
| "truthy (JBool b) = b"
| "truthy (JNum n) = (n \<noteq> 0)"
| "truthy (JStr s) = (s \<noteq> [])"
| "truthy (JObj ps) = True"

definition digit :: "nat \<Rightarrow> char" where
  "digit d = ''0123456789'' ! d"

fun show_nat :: "nat \<Rightarrow> string" where
  "show_nat n = (if n < 10 then [digit n] else show_nat (n div 10) @ [digit (n mod 10)])"

declare show_nat.simps [simp del]

definition show_int :: "int \<Rightarrow> string" where
  "show_int i = (if i < 0 then CHR ''-'' # show_nat (nat (- i)) else show_nat (nat i))"

text \<open>\<^verbatim>\<open>String(value)\<close>.\<close>

fun String_js :: "jsval \<Rightarrow> string" where
  "String_js JUndefined = ''undefined''"
| "String_js JNull = ''null''"
| "String_js (JBool b) = (if b then ''true'' else ''false'')"
| "String_js (JNum n) = show_int n"
| "String_js (JStr s) = s"
| "String_js (JObj ps) = ''[object Object]''"

section \<open>URLSearchParams\<close>

text \<open>
  A \<^verbatim>\<open>URLSearchParams\<close> is its list of (name, value) pairs; \<^verbatim>\<open>append\<close> adds a pair at
  the end and \<^verbatim>\<open>toString\<close> is the application/x-www-form-urlencoded serialiser: bytes
  other than ASCII letters, digits and \<^verbatim>\<open>*-._\<close> are percent-encoded, a space becomes a plus
  sign, pairs are joined by an ampersand.
\<close>

type_synonym URLSearchParams = "(string \<times> string) list"

definition append_param :: "URLSearchParams \<Rightarrow> string \<Rightarrow> string \<Rightarrow> URLSearchParams" where
  "append_param params name v = params @ [(name, v)]"

definition hexdigit :: "nat \<Rightarrow> char" where
  "hexdigit d = ''0123456789ABCDEF'' ! d"

definition unreserved :: "char \<Rightarrow> bool" where
  "unreserved c =
     (c \<in> set ''ABCDEFGHIJKLMNOPQRSTUVWXYZabcdefghijklmnopqrstuvwxyz0123456789*-._'')"

definition urlencode_byte :: "char \<Rightarrow> string" where
  "urlencode_byte c =
     (if c = CHR '' '' then ''+''
      else if unreserved c then [c]
      else [CHR ''%'', hexdigit (of_char c div 16), hexdigit (of_char c mod 16)])"

definition urlencode :: "string \<Rightarrow> string" where
  "urlencode s = concat (map urlencode_byte s)"

definition encode_pair :: "string \<times> string \<Rightarrow> string" where
  "encode_pair p = urlencode (fst p) @ ''='' @ urlencode (snd p)"

fun join_amp :: "string list \<Rightarrow> string" where
  "join_amp [] = []"
| "join_amp [x] = x"
| "join_amp (x # y # ys) = x @ ''&'' @ join_amp (y # ys)"

definition toString :: "URLSearchParams \<Rightarrow> string" where
  "toString params = join_amp (map encode_pair params)"

section \<open>Cache key derivation and outbound query (api/client.ts)\<close>

text \<open>
  \<^verbatim>\<open>buildCacheKey\<close>: the names are sorted, each value is read back from the object,
  undefined and null values are skipped, the others are appended as strings.
  \<open>cacheParams\<close> is the local \<^verbatim>\<open>URLSearchParams\<close> the loop fills.
\<close>

definition cacheParams :: "(string \<times> jsval) list \<Rightarrow> URLSearchParams" where
  "cacheParams qs =
     foldl (\<lambda>params key.
              let v = getprop qs key
              in if v \<noteq> JUndefined \<and> v \<noteq> JNull then append_param params key (String_js v)
                 else params)
           [] (sort (map fst qs))"

definition buildCacheKey :: "string \<Rightarrow> (string \<times> jsval) list \<Rightarrow> string" where
  "buildCacheKey path qs = path @ ''?'' @ toString (cacheParams qs)"

text \<open>\<^verbatim>\<open>prepareQueryParams\<close>: the same filter and conversion over \<^verbatim>\<open>Object.entries\<close>.\<close>

definition prepareQueryParams :: "(string \<times> jsval) list \<Rightarrow> URLSearchParams" where
  "prepareQueryParams qs =
     foldl (\<lambda>params (key, v).
              if v \<noteq> JUndefined \<and> v \<noteq> JNull then append_param params key (String_js v)
              else params)
           [] qs"

text \<open>A value that is neither undefined nor null: the test both functions apply.\<close>

definition present :: "jsval \<Rightarrow> bool" where
  "present v = (v \<noteq> JUndefined \<and> v \<noteq> JNull)"

section \<open>Configuration (config.ts)\<close>

text \<open>
  The fields of \<^verbatim>\<open>LimitlessConfig\<close> that the cache and the client read. Lifetimes and
  multipliers are numbers that need not be whole (the search multiplier defaults to 1.5).
\<close>

record multipliers =
  METADATA :: rat
  LISTINGS :: rat
  SEARCH :: rat
  SUMMARIES :: rat

record config =
  API_BASE_URL :: string
  API_MAX_RETRIES :: int
  CACHE_TTL :: rat
  CACHE_MAX_KEYS :: nat
  CACHE_TTL_MULTIPLIERS :: multipliers

text \<open>The defaults that config.ts uses when no environment variable is set.\<close>

definition default_config :: config where
  "default_config =
     \<lparr>API_BASE_URL = ''https://api.limitless.ai/v1'',
      API_MAX_RETRIES = 3,
      CACHE_TTL = 300,
      CACHE_MAX_KEYS = 500,
      CACHE_TTL_MULTIPLIERS = \<lparr>METADATA = 3, LISTINGS = 2, SEARCH = 3 / 2, SUMMARIES = 4\<rparr>\<rparr>"

section \<open>TTL policy (cache.ts)\<close>

fun startsWith :: "string \<Rightarrow> string \<Rightarrow> bool" where
  "startsWith s [] = True"
| "startsWith [] (c # cs) = False"
| "startsWith (x # xs) (c # cs) = (x = c \<and> startsWith xs cs)"

text \<open>\<^verbatim>\<open>s.includes(sub)\<close>: \<open>sub\<close> starts at some position of \<open>s\<close>.\<close>

fun includes_js :: "string \<Rightarrow> string \<Rightarrow> bool" where
  "includes_js [] sub = (sub = [])"
| "includes_js (x # xs) sub = (startsWith (x # xs) sub \<or> includes_js xs sub)"

definition calculateTTL :: "config \<Rightarrow> string \<Rightarrow> (string \<times> jsval) list \<Rightarrow> rat" where
  "calculateTTL cfg path queryParams =
     (let ttl = CACHE_TTL cfg
      in if includes_js path ''/lifelogs/'' \<and> \<not> truthy (getprop queryParams ''includeMarkdown'')
         then CACHE_TTL cfg * METADATA (CACHE_TTL_MULTIPLIERS cfg)
         else if path = ''/lifelogs'' \<and> truthy (getprop queryParams ''limit'')
         then CACHE_TTL cfg * LISTINGS (CACHE_TTL_MULTIPLIERS cfg)
         else if truthy (getprop queryParams ''query'')
         then CACHE_TTL cfg * SEARCH (CACHE_TTL_MULTIPLIERS cfg)
         else ttl)"





section \<open>Errors (utils/errors.ts)\<close>

text \<open>
  \<^verbatim>\<open>ErrorCode\<close>, one constructor for each distinct value of the enum. The legacy members
  \<^verbatim>\<open>NotFound\<close> and \<^verbatim>\<open>Unauthorized\<close> have the values of \<^verbatim>\<open>NOT_FOUND\<close> and
  \<^verbatim>\<open>UNAUTHORIZED\<close> and are those constructors; \<^verbatim>\<open>ServiceUnavailable\<close> has a value of its own,
  different from that of \<^verbatim>\<open>API_ERROR\<close>.
\<close>

datatype ErrorCode =
    UNKNOWN_ERROR
  | INVALID_REQUEST
  | NOT_FOUND
  | UNAUTHORIZED
  | API_ERROR
  | RATE_LIMITED
  | TIMEOUT
  | ServiceUnavailable
  | Internal
  | InvalidParams

abbreviation NotFound :: ErrorCode where
  "NotFound \<equiv> NOT_FOUND"

abbreviation Unauthorized :: ErrorCode where
  "Unauthorized \<equiv> UNAUTHORIZED"

fun code_value :: "ErrorCode \<Rightarrow> string" where
  "code_value UNKNOWN_ERROR = ''unknown_error''"
| "code_value INVALID_REQUEST = ''invalid_request''"
| "code_value NOT_FOUND = ''not_found''"
| "code_value UNAUTHORIZED = ''unauthorized''"
| "code_value API_ERROR = ''api_error''"
| "code_value RATE_LIMITED = ''rate_limited''"
| "code_value TIMEOUT = ''timeout''"
| "code_value ServiceUnavailable = ''service_unavailable''"
| "code_value Internal = ''internal_error''"
| "code_value InvalidParams = ''invalid_params''"

record McpError =
  mcp_message :: string
  mcp_code :: ErrorCode
  httpStatus :: "int option"

text \<open>
  The constructor called with a string message, as the client calls it:
  \<^verbatim>\<open>this.code = code || ErrorCode.UNKNOWN_ERROR\<close>.
\<close>

definition new_McpError :: "string \<Rightarrow> ErrorCode option \<Rightarrow> int option \<Rightarrow> McpError" where
  "new_McpError message code status =
     \<lparr>mcp_message = message,
      mcp_code = (case code of None \<Rightarrow> UNKNOWN_ERROR | Some c \<Rightarrow> c),
      httpStatus = status\<rparr>"

subsection \<open>Status extraction from an unknown value\<close>

text \<open>
  \<^verbatim>\<open>typeof\<close>, the \<^verbatim>\<open>in\<close> operator and property reads. Reading a property of undefined or
  null, and \<^verbatim>\<open>in\<close> on a value that is not an object, throw a TypeError; a boolean, number
  or string has none of the properties read here.
\<close>

datatype js_exn = TypeError

fun typeof :: "jsval \<Rightarrow> string" where
  "typeof JUndefined = ''undefined''"
| "typeof JNull = ''object''"
| "typeof (JBool b) = ''boolean''"
| "typeof (JNum n) = ''number''"
| "typeof (JStr s) = ''string''"
| "typeof (JObj ps) = ''object''"

fun has_in :: "string \<Rightarrow> jsval \<Rightarrow> js_exn + bool" where
  "has_in key (JObj ps) = Inr (key \<in> set (map fst ps))"
| "has_in key v = Inl TypeError"

fun read_prop :: "jsval \<Rightarrow> string \<Rightarrow> js_exn + jsval" where
  "read_prop JUndefined key = Inl TypeError"
| "read_prop JNull key = Inl TypeError"
| "read_prop (JObj ps) key = Inr (getprop ps key)"
| "read_prop v key = Inr JUndefined"

text \<open>Optional chaining \<^verbatim>\<open>v?.key\<close>: undefined when \<open>v\<close> is undefined or null.\<close>

definition read_prop_opt :: "jsval \<Rightarrow> string \<Rightarrow> js_exn + jsval" where
  "read_prop_opt v key = (if v = JUndefined \<or> v = JNull then Inr JUndefined else read_prop v key)"

text \<open>Short-circuit \<^verbatim>\<open>a && b\<close> and \<^verbatim>\<open>a || b\<close> on tests that may throw.\<close>

definition sc_and :: "js_exn + bool \<Rightarrow> js_exn + bool \<Rightarrow> js_exn + bool" where
  "sc_and a b = (case a of Inl e \<Rightarrow> Inl e | Inr t \<Rightarrow> if t then b else Inr False)"

definition sc_or :: "js_exn + bool \<Rightarrow> js_exn + bool \<Rightarrow> js_exn + bool" where
  "sc_or a b = (case a of Inl e \<Rightarrow> Inl e | Inr t \<Rightarrow> if t then Inr True else b)"

definition type_is :: "js_exn + jsval \<Rightarrow> string \<Rightarrow> js_exn + bool" where
  "type_is r ty = (case r of Inl e \<Rightarrow> Inl e | Inr v \<Rightarrow> Inr (typeof v = ty))"

definition not_null :: "js_exn + jsval \<Rightarrow> js_exn + bool" where
  "not_null r = (case r of Inl e \<Rightarrow> Inl e | Inr v \<Rightarrow> Inr (v \<noteq> JNull))"

definition isApiError :: "jsval \<Rightarrow> js_exn + bool" where
  "isApiError error =
     sc_and (Inr (typeof error = ''object''))
    (sc_and (Inr (error \<noteq> JNull))
       (sc_or (has_in ''statusCode'' error)
       (sc_or (sc_and (has_in ''response'' error)
              (sc_and (type_is (read_prop error ''response'') ''object'')
                      (not_null (read_prop error ''response''))))
              (sc_and (has_in ''message'' error)
                      (type_is (read_prop error ''message'') ''string'')))))"

definition getErrorStatusCode :: "jsval \<Rightarrow> js_exn + jsval" where
  "getErrorStatusCode error =
     (case isApiError error of
        Inl e \<Rightarrow> Inl e
      | Inr api \<Rightarrow>
          if \<not> api then Inr JUndefined
          else (case read_prop error ''statusCode'' of
                  Inl e \<Rightarrow> Inl e
                | Inr direct \<Rightarrow>
                    if truthy direct then Inr direct
                    else (case read_prop error ''response'' of
                            Inl e \<Rightarrow> Inl e
                          | Inr resp \<Rightarrow>
                              (case read_prop_opt resp ''statusCode'' of
                                 Inl e \<Rightarrow> Inl e
                               | Inr nested \<Rightarrow>
                                   if truthy nested then Inr nested else Inr JUndefined))))"

text \<open>
  The two places a status can be carried, in the words of the specification: directly on
  the failure, or inside its response wrapper.
\<close>

definition direct_status :: "jsval \<Rightarrow> jsval" where
  "direct_status error = (case error of JObj ps \<Rightarrow> getprop ps ''statusCode'' | _ \<Rightarrow> JUndefined)"

definition nested_status :: "jsval \<Rightarrow> jsval" where
  "nested_status error =
     (case error of
        JObj ps \<Rightarrow> (case getprop ps ''response'' of
                      JObj rs \<Rightarrow> getprop rs ''statusCode''
                    | _ \<Rightarrow> JUndefined)
      | _ \<Rightarrow> JUndefined)"

section \<open>Raw failures\<close>

text \<open>
  The raw failures that travel through the client: an error object with its name, and the
  optional fields the client casts it to
  (\<^verbatim>\<open>{ response?: { statusCode: number }, statusCode?: number, message?: string }\<close>).
\<close>

record response_wrapper =
  wrapped_statusCode :: int

record raw_error =
  err_name :: string
  err_message :: "string option"
  err_statusCode :: "int option"
  err_response :: "response_wrapper option"

text \<open>\<^verbatim>\<open>new Error(message)\<close>.\<close>

definition new_Error :: "string \<Rightarrow> raw_error" where
  "new_Error message =
     \<lparr>err_name = ''Error'', err_message = Some message, err_statusCode = None, err_response = None\<rparr>"

section \<open>Cache store\<close>

text \<open>
  Modelled from the spec: the cache store is the NodeCache instance that cache.ts creates;
  the library is not part of the sources. The store maps a key to (value, expiry, insertion
  time), counts hits and misses, and has a configured maximum number of distinct keys.
  The payload \<open>'r\<close> is whatever value is stored. Times and lifetimes are in seconds.
\<close>

record 'r entry =
  ent_value :: 'r
  expiresAt :: rat
  insertedAt :: rat

record 'r store =
  entries :: "(string \<times> 'r entry) list"
  maxKeys :: nat
  hits :: nat
  misses :: nat

text \<open>Modelled from the spec: the capacity error of \<open>set\<close>; it carries no HTTP status.\<close>

definition CapacityExceeded :: raw_error where
  "CapacityExceeded =
     \<lparr>err_name = ''CapacityExceeded'', err_message = Some ''Cache max keys amount exceeded'',
      err_statusCode = None, err_response = None\<rparr>"

text \<open>
  Modelled from the spec: \<open>get\<close> returns absent for a key that was never set or whose
  expiry has passed, and counts a hit or a miss.
\<close>

definition cache_get :: "rat \<Rightarrow> string \<Rightarrow> 'r store \<Rightarrow> 'r option \<times> 'r store" where
  "cache_get t key s =
     (case map_of (entries s) key of
        None \<Rightarrow> (None, s\<lparr>misses := Suc (misses s)\<rparr>)
      | Some e \<Rightarrow>
          if expiresAt e < t then (None, s\<lparr>misses := Suc (misses s)\<rparr>)
          else (Some (ent_value e), s\<lparr>hits := Suc (hits s)\<rparr>))"

text \<open>
  Modelled from the spec: \<open>set\<close> fails with the capacity error when the store is at its
  maximum number of keys and the key is new; otherwise it replaces the whole entry, which
  expires \<open>ttl\<close> seconds after the write.
\<close>

definition cache_set :: "rat \<Rightarrow> string \<Rightarrow> 'r \<Rightarrow> rat \<Rightarrow> 'r store \<Rightarrow> raw_error + 'r store" where
  "cache_set t key v ttl s =
     (if map_of (entries s) key = None \<and> maxKeys s \<le> length (entries s) then Inl CapacityExceeded
      else Inr (s\<lparr>entries :=
                   AList.update key \<lparr>ent_value = v, expiresAt = t + ttl, insertedAt = t\<rparr> (entries s)\<rparr>))"

text \<open>The store as cache.ts creates it: empty, with the configured maximum.\<close>

definition new_cache :: "config \<Rightarrow> 'r store" where
  "new_cache cfg = \<lparr>entries = [], maxKeys = CACHE_MAX_KEYS cfg, hits = 0, misses = 0\<rparr>"

section \<open>The world of a call\<close>

text \<open>
  \<^verbatim>\<open>request\<close> (undici) is the external network call. One attempt either resolves with a
  response, whatever its HTTP status, or rejects with an error; \<open>took\<close> is the time the
  attempt lasted. The network is the function that gives the reply of the n-th attempt made.
  The body of a response parses to the payload or \<^verbatim>\<open>json()\<close> rejects.
\<close>

record 'r Response =
  statusCode :: int
  body_json :: "raw_error + 'r"

datatype 'r outcome = Resolved "'r Response" | Rejected raw_error

record 'r reply =
  took :: rat
  outcome :: "'r outcome"

text \<open>
  What a call does besides returning: the backoff sleeps (in milliseconds) and the network
  requests (with their URL), in the order they happen; the store; the clock.
\<close>

datatype event = Sleep nat | Request string

record 'r world =
  cache :: "'r store"
  now :: rat
  trace :: "event list"

fun is_request :: "event \<Rightarrow> bool" where
  "is_request (Request url) = True"
| "is_request (Sleep ms) = False"

definition attempts :: "event list \<Rightarrow> nat" where
  "attempts tr = length (filter is_request tr)"

definition sleep_ms :: "nat \<Rightarrow> 'r world \<Rightarrow> 'r world" where
  "sleep_ms ms w = w\<lparr>now := now w + of_nat ms / 1000, trace := trace w @ [Sleep ms]\<rparr>"

definition request :: "(nat \<Rightarrow> 'r reply) \<Rightarrow> string \<Rightarrow> 'r world \<Rightarrow> 'r outcome \<times> 'r world" where
  "request net url w =
     (let r = net (attempts (trace w))
      in (outcome r, w\<lparr>now := now w + took r, trace := trace w @ [Request url]\<rparr>))"

section \<open>The client (api/client.ts)\<close>

text \<open>\<^verbatim>\<open>errWithStatus.statusCode && errWithStatus.statusCode < 500\<close>.\<close>

definition client_error :: "int option \<Rightarrow> bool" where
  "client_error sc = (case sc of None \<Rightarrow> False | Some n \<Rightarrow> n \<noteq> 0 \<and> n < 500)"

text \<open>
  The retry loop, from the state (\<open>retryCount\<close>, \<open>lastError\<close>). It ends by throwing (\<open>Inl\<close>)
  or by leaving the loop with \<open>response\<close> and \<open>lastError\<close> (\<open>Inr\<close>).
\<close>

function retry_loop ::
  "config \<Rightarrow> (nat \<Rightarrow> 'r reply) \<Rightarrow> string \<Rightarrow> nat \<Rightarrow> raw_error option \<Rightarrow> 'r world
     \<Rightarrow> (raw_error + ('r Response option \<times> raw_error option)) \<times> 'r world" where
  "retry_loop cfg net url retryCount lastError w =
     (if int retryCount \<le> API_MAX_RETRIES cfg then
        (case request net url
                (if retryCount > 0 then sleep_ms (2 ^ (retryCount - 1) * 1000) w else w) of
           (Resolved response, w') \<Rightarrow> (Inr (Some response, lastError), w')
         | (Rejected err, w') \<Rightarrow>
             if client_error (err_statusCode err) then (Inl err, w')
             else if int (retryCount + 1) > API_MAX_RETRIES cfg then (Inl err, w')
             else retry_loop cfg net url (retryCount + 1) (Some err) w')
      else (Inr (None, lastError), w))"
  by pat_completeness auto
termination
  by (relation "measure (\<lambda>(cfg, net, url, retryCount, lastError, w).
                  nat (API_MAX_RETRIES cfg + 1 - int retryCount))") auto

declare retry_loop.simps [simp del]

text \<open>The URL of the request: \<^verbatim>\<open>`${config.API_BASE_URL}${path}?${params}`\<close>.\<close>

definition request_url :: "config \<Rightarrow> string \<Rightarrow> URLSearchParams \<Rightarrow> string" where
  "request_url cfg path params = API_BASE_URL cfg @ path @ ''?'' @ toString params"

text \<open>The body of the outer \<^verbatim>\<open>try\<close>: the loop, the status check, the parse, the cache write.\<close>

definition try_body ::
  "config \<Rightarrow> (nat \<Rightarrow> 'r reply) \<Rightarrow> string \<Rightarrow> (string \<times> jsval) list \<Rightarrow> bool \<Rightarrow> string
     \<Rightarrow> URLSearchParams \<Rightarrow> 'r world \<Rightarrow> (raw_error + 'r) \<times> 'r world" where
  "try_body cfg net path qs useCache cacheKey params w =
     (case retry_loop cfg net (request_url cfg path params) 0 None w of
        (Inl err, w') \<Rightarrow> (Inl err, w')
      | (Inr (None, lastError), w') \<Rightarrow>
          (Inl (case lastError of
                  Some e \<Rightarrow> e
                | None \<Rightarrow> new_Error (''API call failed with no response: '' @ path)), w')
      | (Inr (Some response, lastError), w') \<Rightarrow>
          if statusCode response = 0 \<or> statusCode response < 200 \<or> statusCode response \<ge> 300
          then (Inl (new_Error (''HTTP error: '' @ show_int (statusCode response))), w')
          else (case body_json response of
                  Inl e \<Rightarrow> (Inl e, w')
                | Inr data \<Rightarrow>
                    if useCache then
                      (case cache_set (now w') cacheKey data (calculateTTL cfg path qs) (cache w') of
                         Inl e \<Rightarrow> (Inl e, w')
                       | Inr c \<Rightarrow> (Inr data, w'\<lparr>cache := c\<rparr>))
                    else (Inr data, w')))"

text \<open>
  The outer \<^verbatim>\<open>catch\<close>: a response wrapper overwrites the status of the error object, the
  status chooses the \<^verbatim>\<open>McpError\<close>, and an error with no (or a zero) status, or a status the
  chain does not name, is thrown again as it is.
\<close>

datatype thrown = Mcp McpError | Raw raw_error

definition catch_handler :: "string \<Rightarrow> raw_error \<Rightarrow> thrown" where
  "catch_handler path error =
     (let err = (case err_response error of
                   Some resp \<Rightarrow> error\<lparr>err_statusCode := Some (wrapped_statusCode resp)\<rparr>
                 | None \<Rightarrow> error)
      in case err_statusCode err of
           None \<Rightarrow> Raw err
         | Some sc \<Rightarrow>
             if sc \<noteq> 0 then
               (if sc = 404
                then Mcp (new_McpError (''Resource not found: '' @ path) (Some NOT_FOUND) None)
                else if sc = 401 \<or> sc = 403
                then Mcp (new_McpError ''Unauthorized access to Limitless API'' (Some UNAUTHORIZED) None)
                else if sc \<ge> 500
                then Mcp (new_McpError (''Limitless API service error: '' @ show_int sc)
                            (Some API_ERROR) None)
                else Raw err)
             else Raw err)"

text \<open>The \<^verbatim>\<open>try\<close> with its \<^verbatim>\<open>catch\<close>: what the call does once the cache has not answered.\<close>

definition try_catch ::
  "config \<Rightarrow> (nat \<Rightarrow> 'r reply) \<Rightarrow> string \<Rightarrow> (string \<times> jsval) list \<Rightarrow> bool \<Rightarrow> string
     \<Rightarrow> URLSearchParams \<Rightarrow> 'r world \<Rightarrow> (thrown + 'r) \<times> 'r world" where
  "try_catch cfg net path qs useCache cacheKey params w =
     (case try_body cfg net path qs useCache cacheKey params w of
        (Inl error, w') \<Rightarrow> (Inl (catch_handler path error), w')
      | (Inr data, w') \<Rightarrow> (Inr data, w'))"

text \<open>
  \<^verbatim>\<open>callLimitlessApi\<close>. The payload is the parsed JSON body, a value of any kind, and
  \<^verbatim>\<open>if (cachedData)\<close> is the truthiness test: the store answering undefined (no entry, or
  an expired one) and the store answering a falsy value both go on to the network. The log
  lines (and \<^verbatim>\<open>getCacheTags\<close>, which only feeds one) are left out.
\<close>

definition callLimitlessApi ::
  "config \<Rightarrow> (nat \<Rightarrow> jsval reply) \<Rightarrow> string \<Rightarrow> (string \<times> jsval) list \<Rightarrow> bool \<Rightarrow> jsval world
     \<Rightarrow> (thrown + jsval) \<times> jsval world" where
  "callLimitlessApi cfg net path qs useCache w =
     (let cacheKey = buildCacheKey path qs;
          looked = (if useCache
                    then (case cache_get (now w) cacheKey (cache w) of
                            (cachedData, c) \<Rightarrow> (cachedData, w\<lparr>cache := c\<rparr>))
                    else (None, w))
      in case looked of
           (Some cachedData, w0) \<Rightarrow>
             if truthy cachedData then (Inr cachedData, w0)
             else try_catch cfg net path qs useCache cacheKey (prepareQueryParams qs) w0
         | (None, w0) \<Rightarrow>
             try_catch cfg net path qs useCache cacheKey (prepareQueryParams qs) w0)"

text \<open>
  The events of a run of n attempts in which every retry is preceded by its backoff sleep
  of \<open>1000 * 2 ^ (k - 1)\<close> milliseconds (k the number of the retry, from 1) and nothing
  precedes the first attempt.
\<close>

definition backoff_delay :: "nat \<Rightarrow> nat" where
  "backoff_delay k = 1000 * 2 ^ (k - 1)"

definition attempt_events :: "string \<Rightarrow> nat \<Rightarrow> event list" where
  "attempt_events url k = (if k > 0 then [Sleep (backoff_delay k)] else []) @ [Request url]"

definition backoff_trace :: "string \<Rightarrow> nat \<Rightarrow> event list" where
  "backoff_trace url n = concat (map (attempt_events url) [0..<n])"

section \<open>Concrete runs\<close>

text \<open>
  Inputs on which the client is evaluated below. A payload is the parsed JSON body. A fresh world has the empty store of the configuration, the clock at
  0 and no events. Each network answers every attempt the same way, in a tenth of a second:
  by resolving with a response of the given HTTP status (what \<^verbatim>\<open>request\<close> does with a
  response of any status), or by rejecting with an error that carries the status as its
  \<open>statusCode\<close>, or with no status at all (a connection failure).
\<close>

type_synonym payload = jsval

definition fresh_world :: "config \<Rightarrow> payload world" where
  "fresh_world cfg = \<lparr>cache = new_cache cfg, now = 0, trace = []\<rparr>"

definition item_42 :: payload where
  "item_42 = JObj [(''data'', JObj [(''lifelog'', JObj [(''id'', JStr ''42'')])])]"

definition responds :: "int \<Rightarrow> nat \<Rightarrow> payload reply" where
  "responds status n = \<lparr>took = 1 / 10, outcome = Resolved \<lparr>statusCode = status, body_json = Inr item_42\<rparr>\<rparr>"

definition rejects :: "int option \<Rightarrow> nat \<Rightarrow> payload reply" where
  "rejects status n =
     \<lparr>took = 1 / 10,
      outcome = Rejected \<lparr>err_name = ''Error'', err_message = Some ''request failed'',
                          err_statusCode = status, err_response = None\<rparr>\<rparr>"

text \<open>A network whose first attempt fails to connect and whose later attempts answer 200.\<close>

definition recovers :: "nat \<Rightarrow> payload reply" where
  "recovers n = (if n = 0 then rejects None n else responds 200 n)"

text \<open>A store at its maximum of one key, holding a live entry for another request.\<close>

definition full_world :: "payload world" where
  "full_world =
     \<lparr>cache = \<lparr>entries = [(''/lifelogs?limit=3'',
                              \<lparr>ent_value = JObj [], expiresAt = 600, insertedAt = 0\<rparr>)],
                maxKeys = 1, hits = 0, misses = 0\<rparr>,
      now = 10, trace = []\<rparr>"

text \<open>
  A store that holds, unexpired, the falsy payload 0 for a request (an upstream that once
  answered that request with the JSON body \<open>0\<close>).
\<close>

definition falsy_world :: "payload world" where
  "falsy_world =
     \<lparr>cache = \<lparr>entries = [(''/lifelogs?limit=3'',
                              \<lparr>ent_value = JNum 0, expiresAt = 600, insertedAt = 0\<rparr>)],
                maxKeys = 500, hits = 0, misses = 0\<rparr>,
      now = 10, trace = []\<rparr>"

text \<open>The default configuration with a negative base lifetime.\<close>

definition negative_ttl_config :: config where
  "negative_ttl_config = default_config\<lparr>CACHE_TTL := - 1\<rparr>"

section \<open>Properties of key derivation\<close>

lemma foldl_append_if:
  "foldl (\<lambda>acc x. if P x then acc @ [f x] else acc) acc0 xs = acc0 @ map f (filter P xs)"
  by (induction xs arbitrary: acc0) simp_all

lemma cacheParams_closed:
  "cacheParams qs =
     map (\<lambda>k. (k, String_js (getprop qs k))) (filter (\<lambda>k. present (getprop qs k)) (sort (map fst qs)))"
  unfolding cacheParams_def append_param_def Let_def present_def
  using foldl_append_if [of "\<lambda>k. getprop qs k \<noteq> JUndefined \<and> getprop qs k \<noteq> JNull"
      "\<lambda>k. (k, String_js (getprop qs k))" "[]" "sort (map fst qs)"]
  by simp


lemma getprop_of_member:
  assumes "distinct (map fst qs)" and "(k, v) \<in> set qs"
  shows "getprop qs k = v"
  using assms by (simp add: getprop_def)

lemma cacheParams_sorted: "sorted (map fst (cacheParams qs))"
proof -
  have "map fst (cacheParams qs) = filter (\<lambda>k. present (getprop qs k)) (sort (map fst qs))"
    by (simp add: cacheParams_closed comp_def)
  then show ?thesis
    by (simp add: sorted_wrt_filter)
qed

text \<open>
  Claim C1. Two parameter objects with distinct names that hold the same (name, value)
  pairs, in whatever order the pairs were inserted, give the same cache key for every path;
  the names in the key are in sorted order.
\<close>

theorem buildCacheKey_order_independent:
  assumes "distinct (map fst qs1)" and "distinct (map fst qs2)" and "set qs1 = set qs2"
  shows "buildCacheKey p qs1 = buildCacheKey p qs2 \<and> sorted (map fst (cacheParams qs1))"
proof -
  have keys: "set (map fst qs1) = set (map fst qs2)"
    using assms(3) by simp
  have "sort (map fst qs1) = sort (map fst qs2)"
    by (rule sorted_distinct_set_unique) (use assms keys in simp_all)
  moreover have "map_of qs1 = map_of qs2"
    using assms by (simp add: map_of_inject_set)
  then have "getprop qs1 = getprop qs2"
    by (simp add: fun_eq_iff getprop_def)
  ultimately have "buildCacheKey p qs1 = buildCacheKey p qs2"
    by (simp add: buildCacheKey_def cacheParams_def)
  then show ?thesis
    by (simp add: cacheParams_sorted)
qed

theorem buildCacheKey_order_independent_witness:
  "buildCacheKey ''/lifelogs'' [(''a'', JNum 1), (''b'', JNum 2)] =
   buildCacheKey ''/lifelogs'' [(''b'', JNum 2), (''a'', JNum 1)] \<and>
   buildCacheKey ''/lifelogs'' [(''a'', JNum 1), (''b'', JNum 2)] = ''/lifelogs?a=1&b=2''"
proof -
  have "distinct (map fst [(''a'', JNum 1), (''b'', JNum 2)])"
    and "distinct (map fst [(''b'', JNum 2), (''a'', JNum 1)])"
    and "set [(''a'', JNum 1), (''b'', JNum 2)] = set [(''b'', JNum 2), (''a'', JNum 1)]"
    by auto
  from buildCacheKey_order_independent [OF this, of "''/lifelogs''"]
  have "buildCacheKey ''/lifelogs'' [(''a'', JNum 1), (''b'', JNum 2)] =
   buildCacheKey ''/lifelogs'' [(''b'', JNum 2), (''a'', JNum 1)]"
    by simp
  moreover have "buildCacheKey ''/lifelogs'' [(''a'', JNum 1), (''b'', JNum 2)] = ''/lifelogs?a=1&b=2''"
    by code_simp
  ultimately show ?thesis by simp
qed

lemma keys_of_present:
  assumes "distinct (map fst qs)"
  shows "map fst (filter (\<lambda>kv. present (snd kv)) qs) = filter (\<lambda>k. present (getprop qs k)) (map fst qs)"
proof -
  have "filter (\<lambda>k. present (getprop qs k)) (map fst qs)
      = map fst (filter ((\<lambda>k. present (getprop qs k)) \<circ> fst) qs)"
    by (simp add: filter_map)
  also have "filter ((\<lambda>k. present (getprop qs k)) \<circ> fst) qs = filter (\<lambda>kv. present (snd kv)) qs"
    by (rule filter_cong) (use assms in \<open>auto simp: getprop_of_member\<close>)
  finally show ?thesis by simp
qed

lemma getprop_filter_present:
  assumes "distinct (map fst qs)" and "present (getprop qs k)"
  shows "getprop (filter (\<lambda>kv. present (snd kv)) qs) k = getprop qs k"
proof (cases "map_of qs k")
  case None
  then show ?thesis using assms(2) by (simp add: getprop_def present_def)
next
  case (Some v)
  then have mem: "(k, v) \<in> set qs" by (rule map_of_SomeD)
  have v: "getprop qs k = v" using Some by (simp add: getprop_def)
  then have "(k, v) \<in> set (filter (\<lambda>kv. present (snd kv)) qs)"
    using mem assms(2) by simp
  moreover have "distinct (map fst (filter (\<lambda>kv. present (snd kv)) qs))"
    using assms(1) by (simp add: distinct_map_filter)
  ultimately show ?thesis using v by (simp add: getprop_of_member)
qed

lemma cacheParams_drop:
  assumes "distinct (map fst qs)"
  shows "cacheParams (filter (\<lambda>kv. present (snd kv)) qs) = cacheParams qs"
proof -
  let ?qs' = "filter (\<lambda>kv. present (snd kv)) qs"
  let ?P = "\<lambda>k. present (getprop qs k)"
  have d': "distinct (map fst ?qs')"
    using assms by (simp add: distinct_map_filter)
  have keys: "sort (map fst ?qs') = filter ?P (sort (map fst qs))"
    by (simp add: keys_of_present [OF assms] filter_sort)
  have same: "getprop ?qs' k = getprop qs k" if "k \<in> set (filter ?P (sort (map fst qs)))" for k
    using that assms by (simp add: getprop_filter_present)
  have "cacheParams ?qs' =
      map (\<lambda>k. (k, String_js (getprop ?qs' k))) (filter (\<lambda>k. present (getprop ?qs' k)) (filter ?P (sort (map fst qs))))"
    by (simp only: cacheParams_closed keys)
  also have "filter (\<lambda>k. present (getprop ?qs' k)) (filter ?P (sort (map fst qs))) = filter ?P (sort (map fst qs))"
    by (rule filter_True) (use same in auto)
  also have "map (\<lambda>k. (k, String_js (getprop ?qs' k))) (filter ?P (sort (map fst qs)))
           = map (\<lambda>k. (k, String_js (getprop qs k))) (filter ?P (sort (map fst qs)))"
    by (rule map_cong) (use same in auto)
  finally show ?thesis by (simp add: cacheParams_closed)
qed

text \<open>
  Claim C2. Parameters whose value is undefined or null do not reach the cache key: for an
  object with distinct names, removing them leaves the key unchanged, in particular
  \<open>{a: undefined, b: 2}\<close> and \<open>{b: 2}\<close> have the same key for every path; and the key
  of the empty object is the path followed by a question mark. The function is total: it
  returns a string on every input.
\<close>

theorem buildCacheKey_drops_undefined_null:
  "(distinct (map fst qs) \<longrightarrow>
      buildCacheKey p (filter (\<lambda>kv. snd kv \<noteq> JUndefined \<and> snd kv \<noteq> JNull) qs) = buildCacheKey p qs)
   \<and> buildCacheKey p [(''a'', JUndefined), (''b'', JNum 2)] = buildCacheKey p [(''b'', JNum 2)]
   \<and> buildCacheKey p [] = p @ ''?''"
proof (intro conjI impI)
  assume "distinct (map fst qs)"
  then show "buildCacheKey p (filter (\<lambda>kv. snd kv \<noteq> JUndefined \<and> snd kv \<noteq> JNull) qs) = buildCacheKey p qs"
    using cacheParams_drop [of qs] by (simp add: buildCacheKey_def present_def)
next
  have "cacheParams [(''a'', JUndefined), (''b'', JNum 2)] = cacheParams [(''b'', JNum 2)]"
    by code_simp
  then show "buildCacheKey p [(''a'', JUndefined), (''b'', JNum 2)] = buildCacheKey p [(''b'', JNum 2)]"
    by (simp add: buildCacheKey_def)
next
  have "cacheParams [] = []" by (simp add: cacheParams_def)
  then show "buildCacheKey p [] = p @ ''?''"
    by (simp add: buildCacheKey_def toString_def)
qed

theorem buildCacheKey_drops_undefined_null_witness:
  "buildCacheKey ''/lifelogs'' [(''cursor'', JNull), (''limit'', JNum 5), (''date'', JUndefined)]
     = buildCacheKey ''/lifelogs'' [(''limit'', JNum 5)]
   \<and> buildCacheKey ''/lifelogs'' [(''limit'', JNum 5)] = ''/lifelogs?limit=5''
   \<and> buildCacheKey ''/lifelogs'' [] = ''/lifelogs?''"
proof -
  have "distinct (map fst [(''cursor'', JNull), (''limit'', JNum 5), (''date'', JUndefined)])"
    by simp
  with buildCacheKey_drops_undefined_null
    [of "[(''cursor'', JNull), (''limit'', JNum 5), (''date'', JUndefined)]" "''/lifelogs''"]
  have "buildCacheKey ''/lifelogs'' [(''cursor'', JNull), (''limit'', JNum 5), (''date'', JUndefined)]
     = buildCacheKey ''/lifelogs'' [(''limit'', JNum 5)]" and "buildCacheKey ''/lifelogs'' [] = ''/lifelogs?''"
    by simp_all
  moreover have "buildCacheKey ''/lifelogs'' [(''limit'', JNum 5)] = ''/lifelogs?limit=5''"
    by code_simp
  ultimately show ?thesis by simp
qed



section \<open>Properties of the TTL policy\<close>



section \<open>Properties of status extraction\<close>

lemma getprop_absent: "key \<notin> fst ` set ps \<Longrightarrow> getprop ps key = JUndefined"
  using map_of_eq_None_iff [of ps key] by (simp add: getprop_def)

lemmas status_defs = getErrorStatusCode_def isApiError_def sc_and_def sc_or_def type_is_def
  not_null_def read_prop_opt_def direct_status_def nested_status_def

text \<open>
  Claim C9. On every value \<open>getErrorStatusCode\<close> returns without throwing: the direct
  \<open>statusCode\<close> when it is truthy, otherwise the \<open>statusCode\<close> inside the response
  wrapper when that is truthy, otherwise undefined.
\<close>

theorem getErrorStatusCode_total:
  "getErrorStatusCode error =
     Inr (if truthy (direct_status error) then direct_status error
          else if truthy (nested_status error) then nested_status error
          else JUndefined)"
proof (cases error)
  case (JObj ps)
  show ?thesis
    by (cases "getprop ps ''response''") (auto simp: JObj status_defs dest: getprop_absent)
qed (simp_all add: status_defs)

theorem getErrorStatusCode_total_witness:
  "getErrorStatusCode (JObj [(''statusCode'', JNum 404)]) = Inr (JNum 404)
   \<and> getErrorStatusCode (JObj [(''message'', JStr ''x''), (''response'', JObj [(''statusCode'', JNum 503)])])
       = Inr (JNum 503)
   \<and> getErrorStatusCode (JStr ''boom'') = Inr JUndefined"
  using getErrorStatusCode_total [of "JObj [(''statusCode'', JNum 404)]"]
    getErrorStatusCode_total
      [of "JObj [(''message'', JStr ''x''), (''response'', JObj [(''statusCode'', JNum 503)])]"]
    getErrorStatusCode_total [of "JStr ''boom''"]
  by (simp add: direct_status_def nested_status_def getprop_def)

section \<open>Properties of the retry loop\<close>

lemma one_attempt:
  assumes "request net url (if 0 < rc then sleep_ms (2 ^ (rc - 1) * 1000) w else w) = (out, w')"
  shows "trace w' = trace w @ attempt_events url rc" and "cache w' = cache w"
  using assms
  by (auto simp: request_def sleep_ms_def attempt_events_def backoff_delay_def Let_def split: if_splits)

lemma attempts_append: "attempts (xs @ ys) = attempts xs + attempts ys"
  by (simp add: attempts_def)

lemma attempts_attempt_events: "attempts (attempt_events url k) = 1"
  by (simp add: attempts_def attempt_events_def)

lemma attempts_run: "attempts (concat (map (attempt_events url) ks)) = length ks"
  by (induction ks) (simp_all add: attempts_append attempts_attempt_events, simp add: attempts_def)

lemma retry_loop_run:
  "cache (snd (retry_loop cfg net url rc le w)) = cache w \<and>
   (\<exists>m. trace (snd (retry_loop cfg net url rc le w))
          = trace w @ concat (map (attempt_events url) [rc..<rc + m])
        \<and> m \<le> nat (API_MAX_RETRIES cfg + 1 - int rc))"
proof (induction cfg net url rc le w rule: retry_loop.induct)
  case (1 cfg net url rc le w)
  show ?case
  proof (cases "int rc \<le> API_MAX_RETRIES cfg")
    case False
    then have "retry_loop cfg net url rc le w = (Inr (None, le), w)"
      by (subst retry_loop.simps) simp
    then show ?thesis by (auto intro: exI [of _ 0])
  next
    case True
    obtain out w' where req:
      "request net url (if 0 < rc then sleep_ms (2 ^ (rc - 1) * 1000) w else w) = (out, w')"
      by fastforce
    note ev = one_attempt [OF req]
    have one: "trace w' = trace w @ concat (map (attempt_events url) [rc..<rc + 1])"
      using ev(1) by simp
    have bound: "1 \<le> nat (API_MAX_RETRIES cfg + 1 - int rc)"
      using True by simp
    show ?thesis
    proof (cases out)
      case (Resolved r)
      then have "retry_loop cfg net url rc le w = (Inr (Some r, le), w')"
        using True req by (subst retry_loop.simps) simp
      then show ?thesis using ev(2) one bound by (auto intro: exI [of _ 1])
    next
      case (Rejected err)
      show ?thesis
      proof (cases "client_error (err_statusCode err) \<or> API_MAX_RETRIES cfg < int (rc + 1)")
        case True
        then have "retry_loop cfg net url rc le w = (Inl err, w')"
          using \<open>int rc \<le> API_MAX_RETRIES cfg\<close> req Rejected by (subst retry_loop.simps) auto
        then show ?thesis using ev(2) one bound by (auto intro: exI [of _ 1])
      next
        case False
        then have unfold: "retry_loop cfg net url rc le w = retry_loop cfg net url (rc + 1) (Some err) w'"
          using \<open>int rc \<le> API_MAX_RETRIES cfg\<close> req Rejected by (subst retry_loop.simps) auto
        from "1.IH" [OF \<open>int rc \<le> API_MAX_RETRIES cfg\<close> req [symmetric] Rejected] False
        obtain m where c: "cache (snd (retry_loop cfg net url (rc + 1) (Some err) w')) = cache w'"
          and t: "trace (snd (retry_loop cfg net url (rc + 1) (Some err) w'))
                = trace w' @ concat (map (attempt_events url) [rc + 1..<rc + 1 + m])"
          and b: "m \<le> nat (API_MAX_RETRIES cfg + 1 - int (rc + 1))"
          by auto
        have "[rc..<rc + (m + 1)] = rc # [rc + 1..<rc + 1 + m]"
          by (simp add: upt_conv_Cons)
        then have "trace (snd (retry_loop cfg net url rc le w))
                = trace w @ concat (map (attempt_events url) [rc..<rc + (m + 1)])"
          using unfold t ev(1) by simp
        moreover have "m + 1 \<le> nat (API_MAX_RETRIES cfg + 1 - int rc)"
          using b False by linarith
        ultimately show ?thesis using unfold c ev(2) by metis
      qed
    qed
  qed
qed

lemma retry_loop_trace:
  assumes "retry_loop cfg net url 0 None w = (res, w')"
  shows "trace w' = trace w @ backoff_trace url (attempts (trace w') - attempts (trace w))"
    and "cache w' = cache w"
    and "attempts (trace w') - attempts (trace w) \<le> nat (API_MAX_RETRIES cfg + 1)"
proof -
  from retry_loop_run [of cfg net url 0 None w] assms
  obtain m where c: "cache w' = cache w"
    and t: "trace w' = trace w @ concat (map (attempt_events url) [0..<m])"
    and b: "m \<le> nat (API_MAX_RETRIES cfg + 1)"
    by auto
  have "attempts (trace w') = attempts (trace w) + m"
    using t by (simp add: attempts_append attempts_run)
  then have m: "attempts (trace w') - attempts (trace w) = m" by simp
  show "trace w' = trace w @ backoff_trace url (attempts (trace w') - attempts (trace w))"
    using t m by (simp add: backoff_trace_def)
  show "cache w' = cache w" by (rule c)
  show "attempts (trace w') - attempts (trace w) \<le> nat (API_MAX_RETRIES cfg + 1)"
    using b m by simp
qed

section \<open>Properties of the client\<close>

lemma try_body_world:
  assumes "try_body cfg net path qs useCache key params w = (res, w')"
  obtains lr w1 where
    "retry_loop cfg net (request_url cfg path params) 0 None w = (lr, w1)"
    and "trace w' = trace w1" and "now w' = now w1"
  using assms unfolding try_body_def
  by (auto split: prod.splits sum.splits option.splits if_splits)

lemma lookup_trace:
  "trace (snd (if useCache
               then (case cache_get (now w) key (cache w) of (d, c) \<Rightarrow> (d, w\<lparr>cache := c\<rparr>))
               else (None, w))) = trace w"
  by (simp split: prod.splits)

lemma try_catch_trace:
  assumes "try_catch cfg net path qs useCache key params w = (res, w')"
  shows "trace w' = trace w @ backoff_trace (request_url cfg path params)
                               (attempts (trace w') - attempts (trace w))
       \<and> attempts (trace w') - attempts (trace w) \<le> nat (API_MAX_RETRIES cfg + 1)"
proof -
  obtain r w2 where tb: "try_body cfg net path qs useCache key params w = (r, w2)"
    by fastforce
  have "w' = w2"
    using assms tb by (auto simp: try_catch_def split: sum.splits)
  from try_body_world [OF tb] obtain lr w1 where
    loop: "retry_loop cfg net (request_url cfg path params) 0 None w = (lr, w1)"
    and t: "trace w2 = trace w1"
    by blast
  from retry_loop_trace [OF loop] show ?thesis
    using t \<open>w' = w2\<close> by simp
qed

lemma callLimitlessApi_cases:
  assumes "callLimitlessApi cfg net path qs useCache w = (res, w')"
  obtains (answered) "trace w' = trace w"
  | (fetched) w0 where "trace w0 = trace w"
      and "try_catch cfg net path qs useCache (buildCacheKey path qs) (prepareQueryParams qs) w0 = (res, w')"
proof -
  let ?key = "buildCacheKey path qs"
  obtain d w0 where look: "(if useCache
               then (case cache_get (now w) ?key (cache w) of (d, c) \<Rightarrow> (d, w\<lparr>cache := c\<rparr>))
               else (None, w)) = (d, w0)"
    by fastforce
  have tr0: "trace w0 = trace w"
    using lookup_trace [of useCache w ?key] look by simp
  show ?thesis
  proof (cases "case d of Some v \<Rightarrow> truthy v | None \<Rightarrow> False")
    case True
    then have "w' = w0"
      using assms look by (auto simp: callLimitlessApi_def split: option.splits)
    then show ?thesis using tr0 answered by simp
  next
    case False
    then have "try_catch cfg net path qs useCache ?key (prepareQueryParams qs) w0 = (res, w')"
      using assms look by (auto simp: callLimitlessApi_def split: option.splits)
    then show ?thesis using tr0 fetched by blast
  qed
qed

lemma callLimitlessApi_trace:
  assumes "callLimitlessApi cfg net path qs useCache w = (res, w')"
  shows "trace w' = trace w @ backoff_trace (request_url cfg path (prepareQueryParams qs))
                               (attempts (trace w') - attempts (trace w))"
    and "attempts (trace w') - attempts (trace w) \<le> nat (API_MAX_RETRIES cfg + 1)"
proof -
  have both: "trace w' = trace w @ backoff_trace (request_url cfg path (prepareQueryParams qs))
                               (attempts (trace w') - attempts (trace w))
      \<and> attempts (trace w') - attempts (trace w) \<le> nat (API_MAX_RETRIES cfg + 1)"
    using assms
  proof (cases rule: callLimitlessApi_cases)
    case answered
    then show ?thesis by (simp add: backoff_trace_def)
  next
    case (fetched w0)
    from try_catch_trace [OF fetched(2)] fetched(1) show ?thesis by simp
  qed
  from both show "trace w' = trace w @ backoff_trace (request_url cfg path (prepareQueryParams qs))
                               (attempts (trace w') - attempts (trace w))"
    by simp
  from both show "attempts (trace w') - attempts (trace w) \<le> nat (API_MAX_RETRIES cfg + 1)"
    by simp
qed

lemma first_attempt_resolved:
  assumes "0 \<le> API_MAX_RETRIES cfg" and "outcome (net (attempts (trace w))) = Resolved r"
  shows "retry_loop cfg net url 0 le w
       = (Inr (Some r, le),
          w\<lparr>now := now w + took (net (attempts (trace w))), trace := trace w @ [Request url]\<rparr>)"
  using assms by (subst retry_loop.simps) (simp add: request_def Let_def)

lemma first_attempt_client_error:
  assumes "0 \<le> API_MAX_RETRIES cfg" and "outcome (net (attempts (trace w))) = Rejected err"
    and "client_error (err_statusCode err)"
  shows "retry_loop cfg net url 0 le w
       = (Inl err,
          w\<lparr>now := now w + took (net (attempts (trace w))), trace := trace w @ [Request url]\<rparr>)"
  using assms by (subst retry_loop.simps) (simp add: request_def Let_def)

lemma callLimitlessApi_miss:
  assumes "map_of (entries (cache w)) (buildCacheKey path qs) = None"
  shows "callLimitlessApi cfg net path qs True w =
     (case try_body cfg net path qs True (buildCacheKey path qs) (prepareQueryParams qs)
             (w\<lparr>cache := (cache w)\<lparr>misses := Suc (misses (cache w))\<rparr>\<rparr>) of
        (Inl error, w') \<Rightarrow> (Inl (catch_handler path error), w')
      | (Inr data, w') \<Rightarrow> (Inr data, w'))"
  using assms by (simp add: callLimitlessApi_def cache_get_def try_catch_def)

lemma callLimitlessApi_falsy:
  assumes "map_of (entries (cache w)) (buildCacheKey path qs) = Some e" and "\<not> expiresAt e < now w"
    and "\<not> truthy (ent_value e)"
  shows "callLimitlessApi cfg net path qs True w =
     try_catch cfg net path qs True (buildCacheKey path qs) (prepareQueryParams qs)
       (w\<lparr>cache := (cache w)\<lparr>hits := Suc (hits (cache w))\<rparr>\<rparr>)"
  using assms by (simp add: callLimitlessApi_def cache_get_def)

lemma callLimitlessApi_expired:
  assumes "map_of (entries (cache w)) (buildCacheKey path qs) = Some e" and "expiresAt e < now w"
  shows "callLimitlessApi cfg net path qs True w =
     try_catch cfg net path qs True (buildCacheKey path qs) (prepareQueryParams qs)
       (w\<lparr>cache := (cache w)\<lparr>misses := Suc (misses (cache w))\<rparr>\<rparr>)"
  using assms by (simp add: callLimitlessApi_def cache_get_def)

lemma try_catch_resolved_ok:
  assumes retries: "0 \<le> API_MAX_RETRIES cfg"
    and reply: "outcome (net (attempts (trace w))) = Resolved r"
    and status: "200 \<le> statusCode r" "statusCode r < 300"
    and body: "body_json r = Inr data"
    and known: "map_of (entries (cache w)) key = Some e"
  shows "fst (try_catch cfg net path qs True key params w) = Inr data
       \<and> trace (snd (try_catch cfg net path qs True key params w))
           = trace w @ [Request (request_url cfg path params)]"
  using first_attempt_resolved [of cfg net w r] assms
  by (simp add: try_catch_def try_body_def cache_set_def)

lemma catch_plain_error: "catch_handler path (new_Error m) = Raw (new_Error m)"
  by (simp add: catch_handler_def new_Error_def)

lemma resolved_bad_status:
  assumes miss: "map_of (entries (cache w)) (buildCacheKey path qs) = None"
    and retries: "0 \<le> API_MAX_RETRIES cfg"
    and reply: "outcome (net (attempts (trace w))) = Resolved r"
    and status: "statusCode r < 200 \<or> 300 \<le> statusCode r"
  shows "callLimitlessApi cfg net path qs True w =
     (Inl (Raw (new_Error (''HTTP error: '' @ show_int (statusCode r)))),
      w\<lparr>cache := (cache w)\<lparr>misses := Suc (misses (cache w))\<rparr>,
        now := now w + took (net (attempts (trace w))),
        trace := trace w @ [Request (request_url cfg path (prepareQueryParams qs))]\<rparr>)"
proof -
  let ?w0 = "w\<lparr>cache := (cache w)\<lparr>misses := Suc (misses (cache w))\<rparr>\<rparr>"
  have "outcome (net (attempts (trace ?w0))) = Resolved r"
    using reply by simp
  with first_attempt_resolved [of cfg net ?w0 r] retries status
  show ?thesis
    by (auto simp: callLimitlessApi_miss [OF miss] try_body_def catch_plain_error)
qed

lemma rejected_client_error:
  assumes miss: "map_of (entries (cache w)) (buildCacheKey path qs) = None"
    and retries: "0 \<le> API_MAX_RETRIES cfg"
    and reply: "outcome (net (attempts (trace w))) = Rejected err"
    and status: "client_error (err_statusCode err)"
  shows "callLimitlessApi cfg net path qs True w =
     (Inl (catch_handler path err),
      w\<lparr>cache := (cache w)\<lparr>misses := Suc (misses (cache w))\<rparr>,
        now := now w + took (net (attempts (trace w))),
        trace := trace w @ [Request (request_url cfg path (prepareQueryParams qs))]\<rparr>)"
proof -
  let ?w0 = "w\<lparr>cache := (cache w)\<lparr>misses := Suc (misses (cache w))\<rparr>\<rparr>"
  have "outcome (net (attempts (trace ?w0))) = Rejected err"
    using reply by simp
  with first_attempt_client_error [of cfg net ?w0 err] retries status
  show ?thesis
    by (simp add: callLimitlessApi_miss [OF miss] try_body_def)
qed

lemma all_rejected:
  "(\<And>i. outcome (net i) = Rejected (e i)) \<Longrightarrow>
   (\<And>i. \<not> client_error (err_statusCode (e i))) \<Longrightarrow>
   int rc \<le> API_MAX_RETRIES cfg \<Longrightarrow>
         fst (retry_loop cfg net url rc le w)
           = Inl (e (attempts (trace w) + (nat (API_MAX_RETRIES cfg) - rc)))
       \<and> trace (snd (retry_loop cfg net url rc le w))
           = trace w @ concat (map (attempt_events url) [rc..<nat (API_MAX_RETRIES cfg) + 1])"
proof (induction cfg net url rc le w rule: retry_loop.induct)
  case (1 cfg net url rc le w)
  note rej = "1.prems"(1) and retryable = "1.prems"(2) and le = "1.prems"(3)
  let ?w1 = "if 0 < rc then sleep_ms (2 ^ (rc - 1) * 1000) w else w"
  have a: "attempts (trace ?w1) = attempts (trace w)"
    by (simp add: sleep_ms_def attempts_def)
  have "fst (request net url ?w1) = Rejected (e (attempts (trace w)))"
    using rej a by (simp add: request_def Let_def)
  then obtain w' where req: "request net url ?w1 = (Rejected (e (attempts (trace w))), w')"
    by (cases "request net url ?w1") simp
  note ev = one_attempt [OF req]
  have a': "attempts (trace w') = attempts (trace w) + 1"
    using ev(1) by (simp add: attempts_append attempts_attempt_events)
  show ?case
  proof (cases "API_MAX_RETRIES cfg < int (rc + 1)")
    case True
    then have "retry_loop cfg net url rc le w = (Inl (e (attempts (trace w))), w')"
      using le req retryable by (subst retry_loop.simps) simp
    moreover have "nat (API_MAX_RETRIES cfg) = rc"
      using True le by simp
    ultimately show ?thesis using ev(1) by simp
  next
    case False
    then have unfold: "retry_loop cfg net url rc le w
        = retry_loop cfg net url (rc + 1) (Some (e (attempts (trace w)))) w'"
      using le req retryable by (subst retry_loop.simps) simp
    have next_le: "int (rc + 1) \<le> API_MAX_RETRIES cfg"
      using False by simp
    have IH: "fst (retry_loop cfg net url (rc + 1) (Some (e (attempts (trace w)))) w')
           = Inl (e (attempts (trace w') + (nat (API_MAX_RETRIES cfg) - (rc + 1))))
       \<and> trace (snd (retry_loop cfg net url (rc + 1) (Some (e (attempts (trace w)))) w'))
           = trace w' @ concat (map (attempt_events url) [rc + 1..<nat (API_MAX_RETRIES cfg) + 1])"
      using "1.IH" [OF le req [symmetric] refl retryable False rej retryable next_le] .
    have idx: "attempts (trace w') + (nat (API_MAX_RETRIES cfg) - (rc + 1))
             = attempts (trace w) + (nat (API_MAX_RETRIES cfg) - rc)"
      using a' next_le by linarith
    have "rc < nat (API_MAX_RETRIES cfg) + 1"
      using next_le by linarith
    then have "[rc..<nat (API_MAX_RETRIES cfg) + 1] = rc # [rc + 1..<nat (API_MAX_RETRIES cfg) + 1]"
      using upt_conv_Cons [of rc "nat (API_MAX_RETRIES cfg) + 1"] by simp
    then show ?thesis
      using unfold IH idx ev(1) by simp
  qed
qed

lemma rejected_retry_bound:
  assumes miss: "map_of (entries (cache w)) (buildCacheKey path qs) = None"
    and retries: "0 \<le> API_MAX_RETRIES cfg"
    and rej: "\<And>i. outcome (net i) = Rejected (e i)"
    and retryable: "\<And>i. \<not> client_error (err_statusCode (e i))"
  shows "fst (callLimitlessApi cfg net path qs True w)
           = Inl (catch_handler path (e (attempts (trace w) + nat (API_MAX_RETRIES cfg))))
       \<and> trace (snd (callLimitlessApi cfg net path qs True w))
           = trace w @ backoff_trace (request_url cfg path (prepareQueryParams qs))
                         (nat (API_MAX_RETRIES cfg) + 1)"
proof -
  let ?w0 = "w\<lparr>cache := (cache w)\<lparr>misses := Suc (misses (cache w))\<rparr>\<rparr>"
  let ?url = "request_url cfg path (prepareQueryParams qs)"
  obtain res w1 where loop: "retry_loop cfg net ?url 0 None ?w0 = (res, w1)"
    by fastforce
  from all_rejected [of net e 0 cfg ?url None ?w0, OF rej retryable] retries loop
  have "res = Inl (e (attempts (trace w) + nat (API_MAX_RETRIES cfg)))"
    and "trace w1 = trace w @ backoff_trace ?url (nat (API_MAX_RETRIES cfg) + 1)"
    by (simp_all add: backoff_trace_def)
  then show ?thesis
    using loop by (simp add: callLimitlessApi_miss [OF miss] try_body_def)
qed

lemma cache_hit:
  assumes "map_of (entries (cache w)) (buildCacheKey path qs) = Some e" and "\<not> expiresAt e < now w"
    and "truthy (ent_value e)"
  shows "callLimitlessApi cfg net path qs True w
       = (Inr (ent_value e), w\<lparr>cache := (cache w)\<lparr>hits := Suc (hits (cache w))\<rparr>\<rparr>)"
  using assms by (simp add: callLimitlessApi_def cache_get_def)

lemma try_body_success:
  assumes "try_body cfg net path qs True key params w = (Inr v, w')"
  obtains w1 c where "cache_set (now w1) key v (calculateTTL cfg path qs) (cache w1) = Inr c"
    and "w' = w1\<lparr>cache := c\<rparr>"
  using assms unfolding try_body_def
  by (auto split: prod.splits sum.splits option.splits if_splits)

lemma cache_set_stored:
  assumes "cache_set t key v ttl s = Inr c"
  shows "map_of (entries c) key = Some \<lparr>ent_value = v, expiresAt = t + ttl, insertedAt = t\<rparr>"
  using assms by (auto simp: cache_set_def update_conv' split: if_splits)

lemma second_fetch:
  assumes first: "callLimitlessApi cfg net path qs True w = (Inr v, w')"
    and ttl: "0 \<le> calculateTTL cfg path qs"
    and v: "truthy v"
  shows "callLimitlessApi cfg net' path qs True w'
       = (Inr v, w'\<lparr>cache := (cache w')\<lparr>hits := Suc (hits (cache w'))\<rparr>\<rparr>)"
proof -
  let ?key = "buildCacheKey path qs"
  have "\<exists>e. map_of (entries (cache w')) ?key = Some e \<and> \<not> expiresAt e < now w' \<and> ent_value e = v"
  proof (cases "cache_get (now w) ?key (cache w)")
    case (Pair d c0)
    let ?w0 = "w\<lparr>cache := c0\<rparr>"
    show ?thesis
    proof (cases "case d of Some x \<Rightarrow> truthy x | None \<Rightarrow> False")
      case True
      then show ?thesis
        using first Pair
        by (auto simp: callLimitlessApi_def cache_get_def split: option.splits if_splits)
    next
      case False
      then have "try_catch cfg net path qs True ?key (prepareQueryParams qs) ?w0 = (Inr v, w')"
        using first Pair by (auto simp: callLimitlessApi_def split: option.splits)
      then have "try_body cfg net path qs True ?key (prepareQueryParams qs) ?w0 = (Inr v, w')"
        by (auto simp: try_catch_def split: prod.splits sum.splits)
      then obtain w1 c where
        set: "cache_set (now w1) ?key v (calculateTTL cfg path qs) (cache w1) = Inr c"
        and w': "w' = w1\<lparr>cache := c\<rparr>"
        by (rule try_body_success)
      from cache_set_stored [OF set] ttl w' show ?thesis by simp
    qed
  qed
  then obtain e where "map_of (entries (cache w')) ?key = Some e" "\<not> expiresAt e < now w'" "ent_value e = v"
    by blast
  then show ?thesis using cache_hit [of w' path qs e cfg net'] v by simp
qed

lemma try_body_capacity:
  assumes loop: "retry_loop cfg net (request_url cfg path params) 0 None w
                   = (Inr (Some r, le), w1)"
    and ok: "200 \<le> statusCode r" "statusCode r < 300"
    and body: "body_json r = Inr data"
    and new: "map_of (entries (cache w)) key = None"
    and full: "maxKeys (cache w) \<le> length (entries (cache w))"
  shows "try_body cfg net path qs True key params w = (Inl CapacityExceeded, w1)"
proof -
  have "cache w1 = cache w"
    using retry_loop_trace(2) [OF loop] .
  then have "cache_set (now w1) key data (calculateTTL cfg path qs) (cache w1) = Inl CapacityExceeded"
    using new full by (simp add: cache_set_def)
  then show ?thesis
    using loop ok body by (simp add: try_body_def)
qed

lemma catch_capacity: "catch_handler path CapacityExceeded = Raw CapacityExceeded"
  by (simp add: catch_handler_def CapacityExceeded_def)

lemma capacity_failure:
  assumes new: "map_of (entries (cache w)) (buildCacheKey path qs) = None"
    and full: "maxKeys (cache w) \<le> length (entries (cache w))"
    and loop: "retry_loop cfg net (request_url cfg path (prepareQueryParams qs)) 0 None
                 (w\<lparr>cache := (cache w)\<lparr>misses := Suc (misses (cache w))\<rparr>\<rparr>) = (Inr (Some r, le), w1)"
    and ok: "200 \<le> statusCode r" "statusCode r < 300"
    and body: "body_json r = Inr data"
  shows "callLimitlessApi cfg net path qs True w = (Inl (Raw CapacityExceeded), w1)
       \<and> entries (cache w1) = entries (cache w)"
proof -
  let ?w0 = "w\<lparr>cache := (cache w)\<lparr>misses := Suc (misses (cache w))\<rparr>\<rparr>"
  have look: "cache_get (now w) (buildCacheKey path qs) (cache w) = (None, cache ?w0)"
    using new by (simp add: cache_get_def)
  have "try_body cfg net path qs True (buildCacheKey path qs) (prepareQueryParams qs) ?w0
      = (Inl CapacityExceeded, w1)"
    by (rule try_body_capacity [OF loop ok body]) (use new full in simp_all)
  then have "callLimitlessApi cfg net path qs True w = (Inl (Raw CapacityExceeded), w1)"
    using look by (simp add: callLimitlessApi_def try_catch_def catch_capacity)
  moreover have "cache w1 = cache ?w0"
    using retry_loop_trace(2) [OF loop] .
  ultimately show ?thesis by simp
qed

lemma resolved_ok_cached:
  assumes miss: "map_of (entries (cache w)) (buildCacheKey path qs) = None"
    and room: "length (entries (cache w)) < maxKeys (cache w)"
    and retries: "0 \<le> API_MAX_RETRIES cfg"
    and reply: "outcome (net (attempts (trace w))) = Resolved r"
    and status: "200 \<le> statusCode r" "statusCode r < 300"
    and body: "body_json r = Inr data"
  shows "callLimitlessApi cfg net path qs True w =
     (Inr data,
      w\<lparr>cache := (cache w)
           \<lparr>entries := AList.update (buildCacheKey path qs)
                          \<lparr>ent_value = data,
                             expiresAt = now w + took (net (attempts (trace w))) + calculateTTL cfg path qs,
                             insertedAt = now w + took (net (attempts (trace w)))\<rparr>
                          (entries (cache w)),
             misses := Suc (misses (cache w))\<rparr>,
        now := now w + took (net (attempts (trace w))),
        trace := trace w @ [Request (request_url cfg path (prepareQueryParams qs))]\<rparr>)"
proof -
  let ?w0 = "w\<lparr>cache := (cache w)\<lparr>misses := Suc (misses (cache w))\<rparr>\<rparr>"
  have "outcome (net (attempts (trace ?w0))) = Resolved r"
    using reply by simp
  with first_attempt_resolved [of cfg net ?w0 r] retries status body room
  show ?thesis
    by (simp add: callLimitlessApi_miss [OF miss] try_body_def cache_set_def)
qed

lemma show_int_503: "show_int 503 = ''503''" by code_simp
lemma show_int_404: "show_int 404 = ''404''" by code_simp

lemma key_limit_3: "buildCacheKey ''/lifelogs'' [(''limit'', JNum 3)] = ''/lifelogs?limit=3''"
  by code_simp

lemma url_limit_3:
  "request_url default_config ''/lifelogs'' (prepareQueryParams [(''limit'', JNum 3)])
     = ''https://api.limitless.ai/v1/lifelogs?limit=3''"
proof -
  have "toString (prepareQueryParams [(''limit'', JNum 3)]) = ''limit=3''" by code_simp
  then show ?thesis by (simp add: request_url_def default_config_def)
qed

lemma key_item_42: "buildCacheKey ''/lifelogs/42'' [] = ''/lifelogs/42?''"
  by code_simp

lemma url_item_42:
  "request_url default_config ''/lifelogs/42'' (prepareQueryParams [])
     = ''https://api.limitless.ai/v1/lifelogs/42?''"
proof -
  have "toString (prepareQueryParams []) = ''''" by code_simp
  then show ?thesis by (simp add: request_url_def default_config_def)
qed

lemma fresh_miss: "map_of (entries (cache (fresh_world cfg))) key = None"
  by (simp add: fresh_world_def new_cache_def)

lemma default_retries: "API_MAX_RETRIES default_config = 3"
  by (simp add: default_config_def)

lemma ttl_item_42: "calculateTTL default_config ''/lifelogs/42'' [] = 900"
proof -
  have "includes_js ''/lifelogs/42'' ''/lifelogs/''" by code_simp
  then show ?thesis by (simp add: calculateTTL_def default_config_def getprop_def)
qed

lemma default_retries_nonneg: "0 \<le> API_MAX_RETRIES default_config"
  by (simp add: default_config_def)

lemma responds_outcome:
  "outcome (responds status n) = Resolved \<lparr>statusCode = status, body_json = Inr item_42\<rparr>"
  by (simp add: responds_def)

lemma rejects_outcome:
  "outcome (rejects status n)
     = Rejected \<lparr>err_name = ''Error'', err_message = Some ''request failed'',
                  err_statusCode = status, err_response = None\<rparr>"
  by (simp add: rejects_def)

text \<open>
  Claim C4 (the code at the failing input). With three retries configured and an upstream
  that answers every attempt with status 503, \<^verbatim>\<open>request\<close> resolves with the response, the
  loop is left at once, and the status check after the loop throws a plain \<open>Error\<close> that
  carries no status: the fetch makes one attempt, does not retry, and the error that
  reaches the caller is not an \<open>McpError\<close>.
\<close>

theorem resolved_503_single_attempt:
  "API_MAX_RETRIES default_config = 3
   \<and> outcome (responds 503 0) = Resolved \<lparr>statusCode = 503, body_json = Inr item_42\<rparr>
   \<and> fst (callLimitlessApi default_config (responds 503) ''/lifelogs'' [(''limit'', JNum 3)] True
            (fresh_world default_config))
       = Inl (Raw (new_Error ''HTTP error: 503''))
   \<and> trace (snd (callLimitlessApi default_config (responds 503) ''/lifelogs'' [(''limit'', JNum 3)] True
            (fresh_world default_config)))
       = [Request ''https://api.limitless.ai/v1/lifelogs?limit=3'']"
proof -
  have "statusCode \<lparr>statusCode = 503, body_json = Inr item_42\<rparr> < 200
      \<or> 300 \<le> statusCode \<lparr>statusCode = 503, body_json = Inr item_42\<rparr>"
    by simp
  from resolved_bad_status [OF fresh_miss default_retries_nonneg responds_outcome this]
  have "fst (callLimitlessApi default_config (responds 503) ''/lifelogs'' [(''limit'', JNum 3)] True
            (fresh_world default_config))
       = Inl (Raw (new_Error ''HTTP error: 503''))"
    and "trace (snd (callLimitlessApi default_config (responds 503) ''/lifelogs'' [(''limit'', JNum 3)] True
            (fresh_world default_config)))
       = trace (fresh_world default_config) @ [Request ''https://api.limitless.ai/v1/lifelogs?limit=3'']"
    by (simp_all add: show_int_503 url_limit_3)
  then show ?thesis
    by (simp add: default_retries responds_outcome fresh_world_def)
qed

text \<open>
  The retry bound holds for attempts that reject with an error carrying the status: four
  attempts, delays of 1, 2 and 4 seconds, and an \<open>McpError\<close> with code \<open>API_ERROR\<close>.
\<close>

lemma rejected_503_four_attempts:
  "fst (callLimitlessApi default_config (rejects (Some 503)) ''/lifelogs'' [(''limit'', JNum 3)] True
            (fresh_world default_config))
       = Inl (Mcp \<lparr>mcp_message = ''Limitless API service error: 503'', mcp_code = API_ERROR,
                    httpStatus = None\<rparr>)
   \<and> trace (snd (callLimitlessApi default_config (rejects (Some 503)) ''/lifelogs'' [(''limit'', JNum 3)] True
            (fresh_world default_config)))
       = [Request ''https://api.limitless.ai/v1/lifelogs?limit=3'', Sleep 1000,
          Request ''https://api.limitless.ai/v1/lifelogs?limit=3'', Sleep 2000,
          Request ''https://api.limitless.ai/v1/lifelogs?limit=3'', Sleep 4000,
          Request ''https://api.limitless.ai/v1/lifelogs?limit=3'']"
proof -
  let ?err = "\<lparr>err_name = ''Error'', err_message = Some ''request failed'',
                err_statusCode = Some 503, err_response = None\<rparr>"
  have four: "[0..<4] = [0, 1, 2, 3]" by code_simp
  have steps: "backoff_trace url 4 = [Request url, Sleep 1000, Request url, Sleep 2000, Request url,
          Sleep 4000, Request url]" for url
    by (simp add: backoff_trace_def four attempt_events_def backoff_delay_def)
  have handled: "catch_handler ''/lifelogs'' ?err
      = Mcp \<lparr>mcp_message = ''Limitless API service error: 503'', mcp_code = API_ERROR,
                    httpStatus = None\<rparr>"
    by (simp add: catch_handler_def new_McpError_def show_int_503)
  have "\<not> client_error (err_statusCode ?err)"
    by (simp add: client_error_def)
  from rejected_retry_bound [OF fresh_miss default_retries_nonneg rejects_outcome this]
  show ?thesis
    by (simp add: default_retries url_limit_3 steps handled fresh_world_def)
qed

text \<open>
  Claim C5 (the code at the failing input). A first attempt answered with status 404
  resolves; the fetch makes one attempt and no sleep, and throws the plain
  \<open>Error\<close> of the status check, which the handler cannot classify as \<open>NOT_FOUND\<close>.
\<close>

theorem resolved_404_unclassified:
  "outcome (responds 404 0) = Resolved \<lparr>statusCode = 404, body_json = Inr item_42\<rparr>
   \<and> fst (callLimitlessApi default_config (responds 404) ''/lifelogs/42'' [] True
            (fresh_world default_config))
       = Inl (Raw (new_Error ''HTTP error: 404''))
   \<and> trace (snd (callLimitlessApi default_config (responds 404) ''/lifelogs/42'' [] True
            (fresh_world default_config)))
       = [Request ''https://api.limitless.ai/v1/lifelogs/42?'']"
proof -
  have "statusCode \<lparr>statusCode = 404, body_json = Inr item_42\<rparr> < 200
      \<or> 300 \<le> statusCode \<lparr>statusCode = 404, body_json = Inr item_42\<rparr>"
    by simp
  from resolved_bad_status [OF fresh_miss default_retries_nonneg responds_outcome this]
  have "fst (callLimitlessApi default_config (responds 404) ''/lifelogs/42'' [] True
            (fresh_world default_config))
       = Inl (Raw (new_Error ''HTTP error: 404''))"
    and "trace (snd (callLimitlessApi default_config (responds 404) ''/lifelogs/42'' [] True
            (fresh_world default_config)))
       = trace (fresh_world default_config) @ [Request ''https://api.limitless.ai/v1/lifelogs/42?'']"
    by (simp_all add: show_int_404 url_item_42)
  then show ?thesis
    by (simp add: responds_outcome fresh_world_def)
qed

text \<open>
  A first attempt that rejects with an error carrying status 404 is not retried and is
  classified \<open>NOT_FOUND\<close>.
\<close>

lemma rejected_404_not_found:
  "fst (callLimitlessApi default_config (rejects (Some 404)) ''/lifelogs/42'' [] True
            (fresh_world default_config))
       = Inl (Mcp \<lparr>mcp_message = ''Resource not found: /lifelogs/42'', mcp_code = NOT_FOUND,
                    httpStatus = None\<rparr>)
   \<and> trace (snd (callLimitlessApi default_config (rejects (Some 404)) ''/lifelogs/42'' [] True
            (fresh_world default_config)))
       = [Request ''https://api.limitless.ai/v1/lifelogs/42?'']"
proof -
  let ?err = "\<lparr>err_name = ''Error'', err_message = Some ''request failed'',
                err_statusCode = Some 404, err_response = None\<rparr>"
  have handled: "catch_handler ''/lifelogs/42'' ?err
      = Mcp \<lparr>mcp_message = ''Resource not found: /lifelogs/42'', mcp_code = NOT_FOUND,
                    httpStatus = None\<rparr>"
    by (simp add: catch_handler_def new_McpError_def)
  have "client_error (err_statusCode ?err)"
    by (simp add: client_error_def)
  from rejected_client_error [OF fresh_miss default_retries_nonneg rejects_outcome this]
  show ?thesis
    by (simp add: url_item_42 handled fresh_world_def)
qed

text \<open>
  Claim C6. In every call the events are the attempts in order, each retry k (from 1)
  preceded by a sleep of \<open>1000 * 2 ^ (k - 1)\<close> milliseconds and nothing else: 1 s, 2 s,
  4 s and so on before retries 1, 2, 3, and no sleep before the first attempt.
\<close>

theorem backoff_schedule:
  "trace (snd (callLimitlessApi cfg net path qs useCache w)) =
     trace w @
     concat (map (\<lambda>k. (if k > 0 then [Sleep (1000 * 2 ^ (k - 1))] else [])
                        @ [Request (request_url cfg path (prepareQueryParams qs))])
               [0..<attempts (trace (snd (callLimitlessApi cfg net path qs useCache w)))
                     - attempts (trace w)])"
proof -
  obtain res w' where run: "callLimitlessApi cfg net path qs useCache w = (res, w')"
    by fastforce
  have "attempt_events url = (\<lambda>k. (if k > 0 then [Sleep (1000 * 2 ^ (k - 1))] else []) @ [Request url])"
    for url
    by (simp add: fun_eq_iff attempt_events_def backoff_delay_def)
  then show ?thesis
    using callLimitlessApi_trace(1) [OF run] run by (simp add: backoff_trace_def)
qed

theorem backoff_schedule_witness:
  "trace (snd (callLimitlessApi default_config (rejects None) ''/lifelogs'' [(''limit'', JNum 3)] True
            (fresh_world default_config)))
     = [Request ''https://api.limitless.ai/v1/lifelogs?limit=3'', Sleep 1000,
        Request ''https://api.limitless.ai/v1/lifelogs?limit=3'', Sleep 2000,
        Request ''https://api.limitless.ai/v1/lifelogs?limit=3'', Sleep 4000,
        Request ''https://api.limitless.ai/v1/lifelogs?limit=3'']"
proof -
  let ?run = "callLimitlessApi default_config (rejects None) ''/lifelogs'' [(''limit'', JNum 3)] True
            (fresh_world default_config)"
  have "\<not> client_error (err_statusCode \<lparr>err_name = ''Error'', err_message = Some ''request failed'',
                err_statusCode = None, err_response = None\<rparr>)"
    by (simp add: client_error_def)
  from rejected_retry_bound [OF fresh_miss default_retries_nonneg rejects_outcome this]
  have "trace (snd ?run) = trace (fresh_world default_config)
           @ backoff_trace ''https://api.limitless.ai/v1/lifelogs?limit=3'' 4"
    by (simp add: default_retries url_limit_3)
  then have "attempts (trace (snd ?run)) - attempts (trace (fresh_world default_config)) = 4"
    by (simp add: attempts_append backoff_trace_def attempts_run)
  moreover have "[0..<4] = [0, 1, 2, 3]" by code_simp
  ultimately show ?thesis
    using backoff_schedule [of default_config "rejects None" "''/lifelogs''" "[(''limit'', JNum 3)]" True
        "fresh_world default_config"]
    by (simp add: url_limit_3 fresh_world_def)
qed

text \<open>
  Claim C7, as amended. With the cache enabled, a key that the store holds unexpired with a
  truthy value (every object is one) is answered from the store: the call returns the
  stored value and changes nothing but the hit counter, so it makes no request and no
  sleep. Consequently, after a successful call that returned a truthy value, a second call
  with the same path and parameters in the world the first one left returns the same value
  without a request, whatever the network would answer, when the lifetime computed for the
  request is not negative.
\<close>

theorem cache_hit_bypasses_network:
  "(map_of (entries (cache w)) (buildCacheKey path qs) = Some e \<and> \<not> expiresAt e < now w
      \<and> truthy (ent_value e) \<longrightarrow>
      callLimitlessApi cfg net path qs True w
        = (Inr (ent_value e), w\<lparr>cache := (cache w)\<lparr>hits := Suc (hits (cache w))\<rparr>\<rparr>)
      \<and> trace (snd (callLimitlessApi cfg net path qs True w)) = trace w)
   \<and> (callLimitlessApi cfg net path qs True w = (Inr v, w') \<and> truthy v
      \<and> 0 \<le> calculateTTL cfg path qs \<longrightarrow>
      callLimitlessApi cfg net' path qs True w'
        = (Inr v, w'\<lparr>cache := (cache w')\<lparr>hits := Suc (hits (cache w'))\<rparr>\<rparr>)
      \<and> trace (snd (callLimitlessApi cfg net' path qs True w')) = trace w')"
  using cache_hit [of w path qs e cfg net] second_fetch [of cfg net path qs w v w' net']
  by simp

theorem cache_hit_bypasses_network_witness:
  "fst (callLimitlessApi default_config (responds 200) ''/lifelogs/42'' [] True (fresh_world default_config))
     = Inr item_42
   \<and> fst (callLimitlessApi default_config (responds 503) ''/lifelogs/42'' [] True
        (snd (callLimitlessApi default_config (responds 200) ''/lifelogs/42'' [] True
                (fresh_world default_config))))
     = Inr item_42
   \<and> trace (snd (callLimitlessApi default_config (responds 503) ''/lifelogs/42'' [] True
        (snd (callLimitlessApi default_config (responds 200) ''/lifelogs/42'' [] True
                (fresh_world default_config)))))
     = [Request ''https://api.limitless.ai/v1/lifelogs/42?'']
   \<and> fst (callLimitlessApi default_config (responds 503) ''/lifelogs'' [(''limit'', JNum 3)] True full_world)
     = Inr (JObj [])
   \<and> trace (snd (callLimitlessApi default_config (responds 503) ''/lifelogs'' [(''limit'', JNum 3)] True
        full_world)) = []"
proof -
  let ?first = "callLimitlessApi default_config (responds 200) ''/lifelogs/42'' [] True
                  (fresh_world default_config)"
  have room: "length (entries (cache (fresh_world default_config)))
                < maxKeys (cache (fresh_world default_config))"
    by (simp add: fresh_world_def new_cache_def default_config_def)
  have ok: "200 \<le> statusCode \<lparr>statusCode = 200, body_json = Inr item_42\<rparr>"
    "statusCode \<lparr>statusCode = 200, body_json = Inr item_42\<rparr> < 300"
    "body_json \<lparr>statusCode = 200, body_json = Inr item_42\<rparr> = Inr item_42"
    by simp_all
  from resolved_ok_cached [OF fresh_miss room default_retries_nonneg responds_outcome ok]
  have first: "fst ?first = Inr item_42"
    and tr: "trace (snd ?first) = [Request ''https://api.limitless.ai/v1/lifelogs/42?'']"
    by (simp_all add: url_item_42 fresh_world_def)
  have run: "?first = (Inr item_42, snd ?first)"
    using first by (cases ?first) simp
  have ttl: "0 \<le> calculateTTL default_config ''/lifelogs/42'' []"
    by (simp add: ttl_item_42)
  have obj: "truthy item_42"
    by (simp add: item_42_def)
  have hit: "map_of (entries (cache full_world)) (buildCacheKey ''/lifelogs'' [(''limit'', JNum 3)])
               = Some \<lparr>ent_value = JObj [], expiresAt = 600, insertedAt = 0\<rparr>"
    by (simp add: key_limit_3 full_world_def)
  have live: "\<not> expiresAt \<lparr>ent_value = JObj [], expiresAt = 600, insertedAt = 0\<rparr> < now full_world"
    by (simp add: full_world_def)
  have part1: "fst (callLimitlessApi default_config (responds 503) ''/lifelogs'' [(''limit'', JNum 3)] True
                     full_world) = Inr (JObj [])
      \<and> trace (snd (callLimitlessApi default_config (responds 503) ''/lifelogs'' [(''limit'', JNum 3)] True
                     full_world)) = trace full_world"
    using cache_hit_bypasses_network
      [where w = full_world and path = "''/lifelogs''" and qs = "[(''limit'', JNum 3)]"
         and e = "\<lparr>ent_value = JObj [], expiresAt = 600, insertedAt = 0\<rparr>"
         and cfg = default_config and net = "responds 503"]
      hit live
    by simp
  have part2: "fst (callLimitlessApi default_config (responds 503) ''/lifelogs/42'' [] True (snd ?first))
                 = Inr item_42
      \<and> trace (snd (callLimitlessApi default_config (responds 503) ''/lifelogs/42'' [] True (snd ?first)))
                 = trace (snd ?first)"
    using cache_hit_bypasses_network
      [where w = "fresh_world default_config" and path = "''/lifelogs/42''" and qs = "[]"
         and cfg = default_config and net = "responds 200" and v = item_42 and w' = "snd ?first"
         and net' = "responds 503"]
      run ttl obj
    by simp
  from part1 part2 show ?thesis
    using first tr by (simp add: full_world_def)
qed

text \<open>
  The claim as stated fails twice. A key present and unexpired whose stored value is falsy
  (here 0) is not answered from the store: the call goes to the network and returns what
  the network answers. And with a negative base lifetime the entry written by a successful
  first call is already expired, so the second, identical call makes a request of its own.
\<close>

theorem cache_hit_bypasses_network_counterexample:
  "map_of (entries (cache falsy_world)) (buildCacheKey ''/lifelogs'' [(''limit'', JNum 3)])
     = Some \<lparr>ent_value = JNum 0, expiresAt = 600, insertedAt = 0\<rparr>
   \<and> now falsy_world \<le> 600
   \<and> fst (callLimitlessApi default_config (responds 200) ''/lifelogs'' [(''limit'', JNum 3)] True
            falsy_world) = Inr item_42
   \<and> trace (snd (callLimitlessApi default_config (responds 200) ''/lifelogs'' [(''limit'', JNum 3)] True
            falsy_world)) = [Request ''https://api.limitless.ai/v1/lifelogs?limit=3'']
   \<and> fst (callLimitlessApi negative_ttl_config (responds 200) ''/lifelogs/42'' [] True
            (fresh_world negative_ttl_config)) = Inr item_42
   \<and> trace (snd (callLimitlessApi negative_ttl_config (responds 200) ''/lifelogs/42'' [] True
        (snd (callLimitlessApi negative_ttl_config (responds 200) ''/lifelogs/42'' [] True
                (fresh_world negative_ttl_config)))))
     = [Request ''https://api.limitless.ai/v1/lifelogs/42?'',
        Request ''https://api.limitless.ai/v1/lifelogs/42?'']"
proof -
  let ?r = "\<lparr>statusCode = 200, body_json = Inr item_42\<rparr>"
  let ?e = "\<lparr>ent_value = JNum 0, expiresAt = 600, insertedAt = 0\<rparr>"
  have ok: "200 \<le> statusCode ?r" "statusCode ?r < 300" "body_json ?r = Inr item_42"
    by simp_all
  have retries: "0 \<le> API_MAX_RETRIES negative_ttl_config"
    by (simp add: negative_ttl_config_def default_config_def)
  have url: "request_url negative_ttl_config ''/lifelogs/42'' (prepareQueryParams [])
               = ''https://api.limitless.ai/v1/lifelogs/42?''"
    using url_item_42 by (simp add: request_url_def negative_ttl_config_def)
  \<comment> \<open>the falsy payload\<close>
  have held: "map_of (entries (cache falsy_world)) (buildCacheKey ''/lifelogs'' [(''limit'', JNum 3)])
                = Some ?e"
    by (simp add: key_limit_3 falsy_world_def)
  have live: "\<not> expiresAt ?e < now falsy_world"
    by (simp add: falsy_world_def)
  have falsy: "\<not> truthy (ent_value ?e)"
    by simp
  let ?w0 = "falsy_world\<lparr>cache := (cache falsy_world)\<lparr>hits := Suc (hits (cache falsy_world))\<rparr>\<rparr>"
  have "outcome (responds 200 (attempts (trace ?w0))) = Resolved ?r"
    by (rule responds_outcome)
  moreover have "map_of (entries (cache ?w0)) (buildCacheKey ''/lifelogs'' [(''limit'', JNum 3)]) = Some ?e"
    using held by simp
  ultimately have a: "fst (callLimitlessApi default_config (responds 200) ''/lifelogs''
                         [(''limit'', JNum 3)] True falsy_world) = Inr item_42
      \<and> trace (snd (callLimitlessApi default_config (responds 200) ''/lifelogs''
                         [(''limit'', JNum 3)] True falsy_world))
          = trace ?w0 @ [Request ''https://api.limitless.ai/v1/lifelogs?limit=3'']"
    using try_catch_resolved_ok
      [where cfg = default_config and net = "responds 200" and w = ?w0 and r = ?r
         and data = item_42 and path = "''/lifelogs''" and qs = "[(''limit'', JNum 3)]"
         and key = "buildCacheKey ''/lifelogs'' [(''limit'', JNum 3)]"
         and params = "prepareQueryParams [(''limit'', JNum 3)]" and e = ?e,
       OF default_retries_nonneg _ ok]
    by (simp add: callLimitlessApi_falsy [OF held live falsy] url_limit_3)
  \<comment> \<open>the negative lifetime\<close>
  let ?first = "callLimitlessApi negative_ttl_config (responds 200) ''/lifelogs/42'' [] True
                  (fresh_world negative_ttl_config)"
  let ?stored = "\<lparr>ent_value = item_42,
                   expiresAt = 1 / 10 + calculateTTL negative_ttl_config ''/lifelogs/42'' [],
                   insertedAt = 1 / 10\<rparr>"
  have room: "length (entries (cache (fresh_world negative_ttl_config)))
                < maxKeys (cache (fresh_world negative_ttl_config))"
    by (simp add: fresh_world_def new_cache_def negative_ttl_config_def default_config_def)
  have took: "took (responds 200 n) = 1 / 10" for n
    by (simp add: responds_def)
  from resolved_ok_cached
    [where path = "''/lifelogs/42''" and qs = "[]" and net = "responds 200",
     OF fresh_miss room retries responds_outcome ok]
  have first: "fst ?first = Inr item_42"
    and tr1: "trace (snd ?first) = [Request ''https://api.limitless.ai/v1/lifelogs/42?'']"
    and now1: "now (snd ?first) = 1 / 10"
    and ent1: "map_of (entries (cache (snd ?first))) (buildCacheKey ''/lifelogs/42'' []) = Some ?stored"
    by (simp_all add: url fresh_world_def new_cache_def took)
  have "includes_js ''/lifelogs/42'' ''/lifelogs/''" by code_simp
  then have "calculateTTL negative_ttl_config ''/lifelogs/42'' [] = - 3"
    by (simp add: calculateTTL_def negative_ttl_config_def default_config_def getprop_def)
  then have expired: "expiresAt ?stored < now (snd ?first)"
    using now1 by simp
  let ?w1 = "(snd ?first)\<lparr>cache := (cache (snd ?first))\<lparr>misses := Suc (misses (cache (snd ?first)))\<rparr>\<rparr>"
  have "outcome (responds 200 (attempts (trace ?w1))) = Resolved ?r"
    by (rule responds_outcome)
  moreover have "map_of (entries (cache ?w1)) (buildCacheKey ''/lifelogs/42'' []) = Some ?stored"
    using ent1 by simp
  ultimately have b: "trace (snd (callLimitlessApi negative_ttl_config (responds 200) ''/lifelogs/42'' []
                                    True (snd ?first)))
          = trace ?w1 @ [Request ''https://api.limitless.ai/v1/lifelogs/42?'']"
    using try_catch_resolved_ok
      [where cfg = negative_ttl_config and net = "responds 200" and w = ?w1 and r = ?r
         and data = item_42 and path = "''/lifelogs/42''" and qs = "[]"
         and key = "buildCacheKey ''/lifelogs/42'' []"
         and params = "prepareQueryParams []" and e = ?stored,
       OF retries _ ok]
    by (simp add: callLimitlessApi_expired [OF ent1 expired] url)
  from a b first tr1 held show ?thesis
    by (simp add: falsy_world_def)
qed

lemma full_world_new: "map_of (entries (cache full_world)) (buildCacheKey ''/lifelogs/42'' []) = None"
  by (simp add: key_item_42 full_world_def)

lemma full_world_full: "maxKeys (cache full_world) \<le> length (entries (cache full_world))"
  by (simp add: full_world_def)

text \<open>
  Claim C8, as amended. When the lookup misses, the retry loop ends with a response of
  status 2xx whose body parses, and the store is at its maximum with the key new, the
  capacity error of \<open>set\<close> is thrown inside the \<^verbatim>\<open>try\<close>; the handler finds no status on
  it and throws it again: the call raises the capacity error instead of returning the
  fetched value, and the store keeps its entries.
\<close>

theorem capacity_error_propagates:
  assumes "map_of (entries (cache w)) (buildCacheKey path qs) = None"
    and "maxKeys (cache w) \<le> length (entries (cache w))"
    and "retry_loop cfg net (request_url cfg path (prepareQueryParams qs)) 0 None
                 (w\<lparr>cache := (cache w)\<lparr>misses := Suc (misses (cache w))\<rparr>\<rparr>) = (Inr (Some r, le), w1)"
    and "200 \<le> statusCode r" and "statusCode r < 300"
    and "body_json r = Inr data"
  shows "callLimitlessApi cfg net path qs True w = (Inl (Raw CapacityExceeded), w1)
       \<and> entries (cache w1) = entries (cache w)"
  using assms by (rule capacity_failure)

theorem capacity_error_propagates_witness:
  "callLimitlessApi default_config recovers ''/lifelogs/42'' [] True full_world
     = (Inl (Raw CapacityExceeded),
        full_world\<lparr>cache := (cache full_world)\<lparr>misses := 1\<rparr>, now := 56 / 5,
                   trace := [Request ''https://api.limitless.ai/v1/lifelogs/42?'', Sleep 1000,
                             Request ''https://api.limitless.ai/v1/lifelogs/42?'']\<rparr>)"
proof -
  let ?w0 = "full_world\<lparr>cache := (cache full_world)\<lparr>misses := Suc (misses (cache full_world))\<rparr>\<rparr>"
  let ?w1 = "full_world\<lparr>cache := (cache full_world)\<lparr>misses := 1\<rparr>, now := 56 / 5,
                   trace := [Request ''https://api.limitless.ai/v1/lifelogs/42?'', Sleep 1000,
                             Request ''https://api.limitless.ai/v1/lifelogs/42?'']\<rparr>"
  let ?r = "\<lparr>statusCode = 200, body_json = Inr item_42\<rparr>"
  let ?err = "\<lparr>err_name = ''Error'', err_message = Some ''request failed'',
                err_statusCode = None, err_response = None\<rparr>"
  have loop: "retry_loop default_config recovers
                (request_url default_config ''/lifelogs/42'' (prepareQueryParams [])) 0 None ?w0
            = (Inr (Some ?r, Some ?err), ?w1)"
    unfolding url_item_42
    apply (subst retry_loop.simps)
    apply (simp add: request_def recovers_def rejects_def attempts_def full_world_def
        default_config_def client_error_def)
    apply (subst retry_loop.simps)
    apply (simp add: request_def recovers_def responds_def attempts_def sleep_ms_def)
    done
  have ok: "200 \<le> statusCode ?r" "statusCode ?r < 300" "body_json ?r = Inr item_42"
    by simp_all
  from capacity_error_propagates [OF full_world_new full_world_full loop ok]
  show ?thesis by simp
qed

text \<open>
  The claim as stated fails: with the store full and the key new, a fetch answered with
  status 200 does not return the fetched value; the capacity error reaches the caller.
\<close>

theorem capacity_error_propagates_counterexample:
  "map_of (entries (cache full_world)) (buildCacheKey ''/lifelogs/42'' []) = None
   \<and> maxKeys (cache full_world) = length (entries (cache full_world))
   \<and> outcome (responds 200 0) = Resolved \<lparr>statusCode = 200, body_json = Inr item_42\<rparr>
   \<and> fst (callLimitlessApi default_config (responds 200) ''/lifelogs/42'' [] True full_world)
       = Inl (Raw CapacityExceeded)
   \<and> fst (callLimitlessApi default_config (responds 200) ''/lifelogs/42'' [] True full_world)
       \<noteq> Inr item_42"
proof -
  let ?w0 = "full_world\<lparr>cache := (cache full_world)\<lparr>misses := Suc (misses (cache full_world))\<rparr>\<rparr>"
  let ?r = "\<lparr>statusCode = 200, body_json = Inr item_42\<rparr>"
  have "outcome (responds 200 (attempts (trace ?w0))) = Resolved ?r"
    by (rule responds_outcome)
  from first_attempt_resolved
    [where cfg = default_config and net = "responds 200" and w = ?w0, OF default_retries_nonneg this]
  have loop: "retry_loop default_config (responds 200)
                (request_url default_config ''/lifelogs/42'' (prepareQueryParams [])) 0 None ?w0
            = (Inr (Some ?r, None),
               ?w0\<lparr>now := now ?w0 + took (responds 200 (attempts (trace ?w0))),
                    trace := trace ?w0 @ [Request (request_url default_config ''/lifelogs/42''
                                                    (prepareQueryParams []))]\<rparr>)" .
  have ok: "200 \<le> statusCode ?r" "statusCode ?r < 300" "body_json ?r = Inr item_42"
    by simp_all
  from capacity_failure [OF full_world_new full_world_full loop ok]
  have "fst (callLimitlessApi default_config (responds 200) ''/lifelogs/42'' [] True full_world)
       = Inl (Raw CapacityExceeded)"
    by simp
  then show ?thesis
    by (simp add: full_world_new responds_outcome) (simp add: full_world_def)
qed

end
